theory Spec2Isabelle
  imports Main "HOL-Library.AList" "HOL-Library.Sublist"
begin

section \<open>Values, documents and the document store\<close>

text \<open>
  The handlers of \<^verbatim>\<open>main.py\<close> work on MongoDB documents, which are Python dicts from
  field names to values. A dict keeps its keys in insertion order, assigning to an existing
  key keeps the key's position, and assigning to a new key appends it: that is an association
  list under \<^const>\<open>AList.update\<close>.

  An \<^verbatim>\<open>ObjectId\<close> is represented by its canonical text, so \<^verbatim>\<open>str(_id)\<close> is the
  projection \<open>str\<close>. A \<^verbatim>\<open>datetime\<close> is a point on a discrete time line.
\<close>

datatype objectid = Oid (str: string)

datatype pyval =
    VNone
  | VStr string
  | VBool bool
  | VDatetime nat
  | VObjectId objectid

type_synonym doc = "(string \<times> pyval) list"

text \<open>\<^verbatim>\<open>doc.get(k)\<close>: the value under \<open>k\<close>, \<^verbatim>\<open>None\<close> when the key is absent.\<close>

definition doc_get :: "doc \<Rightarrow> string \<Rightarrow> pyval" where
  "doc_get d k = (case map_of d k of None \<Rightarrow> VNone | Some v \<Rightarrow> v)"

text \<open>\<^verbatim>\<open>not doc\<close> for the result of \<^verbatim>\<open>find_one\<close>: \<^verbatim>\<open>None\<close> and the empty dict are falsy.\<close>

definition falsy :: "doc option \<Rightarrow> bool" where
  "falsy r = (case r of None \<Rightarrow> True | Some d \<Rightarrow> d = [])"

text \<open>
  What the handlers take from outside the repository is a parameter of the model:
  the constructor \<^verbatim>\<open>bson.ObjectId(id_str)\<close> (\<open>None\<close> where it raises), 
  \<^verbatim>\<open>datetime.isoformat\<close>, and the store's regular-expression engine behind
  \<^verbatim>\<open>$regex\<close>: \<open>regex L pattern options\<close> is \<open>None\<close> where the store rejects the
  pattern, and otherwise the predicate "the pattern matches somewhere in this text".
\<close>

record lib =
  ObjectId :: "string \<Rightarrow> objectid option"
  isoformat :: "nat \<Rightarrow> string"
  regex :: "string \<Rightarrow> string \<Rightarrow> (string \<Rightarrow> bool) option"

text \<open>
  Every \<^verbatim>\<open>raise HTTPException(status_code, detail)\<close> of the source is a value;
  \<open>OperationFailure\<close> is the store's own exception, which no handler catches.
\<close>

datatype error = HTTPException nat string | OperationFailure

abbreviation MalformedIdentifier :: error where
  "MalformedIdentifier \<equiv> HTTPException 400 ''Invalid ID''"

abbreviation InvalidReference :: error where
  "InvalidReference \<equiv> HTTPException 400 ''Invalid restaurant user''"

abbreviation InvalidClaimer :: error where
  "InvalidClaimer \<equiv> HTTPException 400 ''Invalid claimer''"

abbreviation NotFound :: error where
  "NotFound \<equiv> HTTPException 404 ''Donation not found''"

abbreviation InvalidState :: error where
  "InvalidState \<equiv> HTTPException 400 ''Donation not available''"

subsection \<open>Queries\<close>

text \<open>
  A query is a dict as well. The handlers build three shapes of entry: a field compared
  with a value (\<^verbatim>\<open>{"status": "available"}\<close>), a field matched against a pattern
  (\<^verbatim>\<open>{"food_item": {"$regex": s, "$options": "i"}}\<close>), and the key \<^verbatim>\<open>$or\<close> with a
  list of sub-queries.
\<close>

datatype cond = Eq pyval | Regex string string

datatype clause = Field cond | OrList "(string \<times> cond) list list"

type_synonym query = "(string \<times> clause) list"

definition cond_ok :: "lib \<Rightarrow> cond \<Rightarrow> bool" where
  "cond_ok L c = (case c of Eq w \<Rightarrow> True | Regex p opts \<Rightarrow> regex L p opts \<noteq> None)"

definition query_ok :: "lib \<Rightarrow> query \<Rightarrow> bool" where
  "query_ok L q =
     list_all (\<lambda>(k, cl). case cl of
          Field c \<Rightarrow> cond_ok L c
        | OrList qs \<Rightarrow> list_all (list_all (\<lambda>(k', c). cond_ok L c)) qs) q"

definition matches_cond :: "lib \<Rightarrow> cond \<Rightarrow> pyval \<Rightarrow> bool" where
  "matches_cond L c v =
     (case c of
        Eq w \<Rightarrow> v = w
      | Regex p opts \<Rightarrow>
          (case v of
             VStr s \<Rightarrow> (case regex L p opts of Some m \<Rightarrow> m s | None \<Rightarrow> False)
           | _ \<Rightarrow> False))"

definition matches_fields :: "lib \<Rightarrow> (string \<times> cond) list \<Rightarrow> doc \<Rightarrow> bool" where
  "matches_fields L q d = list_all (\<lambda>(k, c). matches_cond L c (doc_get d k)) q"

definition matches :: "lib \<Rightarrow> query \<Rightarrow> doc \<Rightarrow> bool" where
  "matches L q d =
     list_all (\<lambda>(k, cl). case cl of
          Field c \<Rightarrow> matches_cond L c (doc_get d k)
        | OrList qs \<Rightarrow> list_ex (\<lambda>q'. matches_fields L q' d) qs) q"

text \<open>The query \<^verbatim>\<open>{"_id": i}\<close>.\<close>

definition by_id :: "objectid \<Rightarrow> query" where
  "by_id i = [(''_id'', Field (Eq (VObjectId i)))]"

subsection \<open>Collections\<close>

text \<open>
  A collection is the list of its documents in insertion order. \<^verbatim>\<open>find_one\<close>,
  \<^verbatim>\<open>update_one\<close> and \<^verbatim>\<open>delete_one\<close> act on the first document that matches.
\<close>

definition find_one :: "lib \<Rightarrow> doc list \<Rightarrow> query \<Rightarrow> doc option" where
  "find_one L C q = List.find (matches L q) C"

text \<open>\<^verbatim>\<open>{"$set": upd}\<close>: every entry of \<open>upd\<close> is assigned, in order.\<close>

definition set_fields :: "doc \<Rightarrow> doc \<Rightarrow> doc" where
  "set_fields upd d = fold (\<lambda>(k, v). AList.update k v) upd d"

fun update_first :: "(doc \<Rightarrow> bool) \<Rightarrow> (doc \<Rightarrow> doc) \<Rightarrow> doc list \<Rightarrow> doc list \<times> nat" where
  "update_first P f [] = ([], 0)"
| "update_first P f (d # ds) =
     (if P d then (f d # ds, 1)
      else (case update_first P f ds of (ds', n) \<Rightarrow> (d # ds', n)))"

text \<open>\<^verbatim>\<open>update_one(q, {"$set": upd})\<close>: the new collection and \<^verbatim>\<open>matched_count\<close>.\<close>

definition update_one :: "lib \<Rightarrow> doc list \<Rightarrow> query \<Rightarrow> doc \<Rightarrow> doc list \<times> nat" where
  "update_one L C q upd = update_first (matches L q) (set_fields upd) C"

fun delete_first :: "(doc \<Rightarrow> bool) \<Rightarrow> doc list \<Rightarrow> doc list \<times> nat" where
  "delete_first P [] = ([], 0)"
| "delete_first P (d # ds) =
     (if P d then (ds, 1)
      else (case delete_first P ds of (ds', n) \<Rightarrow> (d # ds', n)))"

text \<open>\<^verbatim>\<open>delete_one(q)\<close>: the new collection and \<^verbatim>\<open>deleted_count\<close>.\<close>

definition delete_one :: "lib \<Rightarrow> doc list \<Rightarrow> query \<Rightarrow> doc list \<times> nat" where
  "delete_one L C q = delete_first (matches L q) C"

text \<open>
  \<^verbatim>\<open>insert_one(d)\<close>: the store draws an identifier \<open>new_id\<close>, writes it into the dict
  under \<^verbatim>\<open>_id\<close> and appends the document. The result is the new collection, the dict
  as the caller sees it afterwards, and \<^verbatim>\<open>inserted_id\<close>.
\<close>

definition insert_one :: "objectid \<Rightarrow> doc list \<Rightarrow> doc \<Rightarrow> doc list \<times> doc \<times> objectid" where
  "insert_one new_id C d =
     (let d' = AList.update ''_id'' (VObjectId new_id) d in (C @ [d'], d', new_id))"

text \<open>
  \<^verbatim>\<open>find(q).sort("created_at", -1)\<close>: the matching documents, latest first. The store
  fails on a pattern it rejects. Documents with equal keys come in an order the store
  does not fix; the model takes the reverse of the stable ascending sort.
\<close>

definition created_key :: "doc \<Rightarrow> nat" where
  "created_key d = (case doc_get d ''created_at'' of VDatetime t \<Rightarrow> t | _ \<Rightarrow> 0)"

definition find_sorted :: "lib \<Rightarrow> doc list \<Rightarrow> query \<Rightarrow> error + doc list" where
  "find_sorted L C q =
     (if query_ok L q then Inr (rev (sort_key created_key (filter (matches L q) C)))
      else Inl OperationFailure)"

record db =
  user :: "doc list"
  donation :: "doc list"


section \<open>Utility helpers\<close>

text \<open>\<^verbatim>\<open>oid\<close>: the identifier of a string, or the 400 response where the constructor raises.\<close>

definition oid :: "lib \<Rightarrow> string \<Rightarrow> error + objectid" where
  "oid L id_str =
     (case ObjectId L id_str of
        Some i \<Rightarrow> Inr i
      | None \<Rightarrow> Inl (HTTPException 400 ''Invalid ID''))"

text \<open>
  \<^verbatim>\<open>serialize_doc\<close>: a falsy argument is returned as it is; otherwise an \<^verbatim>\<open>_id\<close>
  that is an ObjectId moves to \<^verbatim>\<open>id\<close> as text, and every datetime becomes its ISO text.
\<close>

definition iso_val :: "lib \<Rightarrow> pyval \<Rightarrow> pyval" where
  "iso_val L v = (case v of VDatetime t \<Rightarrow> VStr (isoformat L t) | _ \<Rightarrow> v)"

definition serialize_doc :: "lib \<Rightarrow> doc option \<Rightarrow> doc option" where
  "serialize_doc L r =
     (if falsy r then r
      else
        (let doc = the r;
             doc = (case doc_get doc ''_id'' of
                      VObjectId i \<Rightarrow> AList.delete ''_id'' (AList.update ''id'' (VStr (str i)) doc)
                    | _ \<Rightarrow> doc)
         in Some (map (\<lambda>(k, v). (k, iso_val L v)) doc)))"

text \<open>
  \<^verbatim>\<open>str.capitalize\<close> on ASCII text: the first character in upper case, the others in
  lower case.
\<close>

definition upper_char :: "char \<Rightarrow> char" where
  "upper_char c =
     (case map_of (zip ''abcdefghijklmnopqrstuvwxyz'' ''ABCDEFGHIJKLMNOPQRSTUVWXYZ'') c of
        Some u \<Rightarrow> u
      | None \<Rightarrow> c)"

definition lower_char :: "char \<Rightarrow> char" where
  "lower_char c =
     (case map_of (zip ''ABCDEFGHIJKLMNOPQRSTUVWXYZ'' ''abcdefghijklmnopqrstuvwxyz'') c of
        Some l \<Rightarrow> l
      | None \<Rightarrow> c)"

definition capitalize :: "string \<Rightarrow> string" where
  "capitalize s = (case s of [] \<Rightarrow> [] | c # cs \<Rightarrow> upper_char c # map lower_char cs)"

section \<open>Schemas for requests\<close>

record DonationCreateRequest =
  food_item :: string
  quantity :: string
  pickup_address :: string
  expiry_time :: nat
  restaurant_id :: string
  restaurant_name :: string

text \<open>\<^verbatim>\<open>DonationUpdateRequest\<close>: the four optional fields, \<open>None\<close> by default.\<close>

record DonationUpdateRequest =
  food_item_opt :: "string option"
  quantity_opt :: "string option"
  pickup_address_opt :: "string option"
  expiry_time_opt :: "nat option"

text \<open>\<^verbatim>\<open>role: Literal['ngo', 'society']\<close>: the request is rejected before the handler runs
  for any other text.\<close>

datatype claimer_role = ngo | society

fun role_text :: "claimer_role \<Rightarrow> string" where
  "role_text ngo = ''ngo''"
| "role_text society = ''society''"

record ClaimRequest =
  user_id :: string
  user_name :: string
  role :: claimer_role

text \<open>\<^verbatim>\<open>req.model_dump()\<close>: the dict of the four fields, in declaration order.\<close>

definition opt_val :: "('a \<Rightarrow> pyval) \<Rightarrow> 'a option \<Rightarrow> pyval" where
  "opt_val f x = (case x of None \<Rightarrow> VNone | Some a \<Rightarrow> f a)"

definition model_dump :: "DonationUpdateRequest \<Rightarrow> doc" where
  "model_dump req =
     [(''food_item'', opt_val VStr (food_item_opt req)),
      (''quantity'', opt_val VStr (quantity_opt req)),
      (''pickup_address'', opt_val VStr (pickup_address_opt req)),
      (''expiry_time'', opt_val VDatetime (expiry_time_opt req))]"

section \<open>Donations\<close>

text \<open>
  Each handler takes the state of the store and returns either the error it raises, with
  the store as it was (every raise of the source comes before the first write, or after
  an update that matched nothing), or the new state and the response body. The readings
  of the clock are arguments.
\<close>

definition create_donation ::
  "lib \<Rightarrow> db \<Rightarrow> objectid \<Rightarrow> nat \<Rightarrow> nat \<Rightarrow> DonationCreateRequest \<Rightarrow> error + db \<times> doc" where
  "create_donation L s new_id now1 now2 req =
     (case oid L (restaurant_id req) of
        Inl e \<Rightarrow> Inl e
      | Inr rid \<Rightarrow>
          (let restaurant = find_one L (user s) (by_id rid) in
           if falsy restaurant \<or> doc_get (the restaurant) ''role'' \<noteq> VStr ''restaurant''
           then Inl (HTTPException 400 ''Invalid restaurant user'')
           else
             (let don =
                    [(''food_item'', VStr (food_item req)),
                     (''quantity'', VStr (quantity req)),
                     (''pickup_address'', VStr (pickup_address req)),
                     (''expiry_time'', VDatetime (expiry_time req)),
                     (''restaurant_id'', VStr (restaurant_id req)),
                     (''restaurant_name'', VStr (restaurant_name req)),
                     (''status'', VStr ''available''),
                     (''claimed_by'', VNone),
                     (''claimed_by_id'', VNone),
                     (''created_at'', VDatetime now1),
                     (''updated_at'', VDatetime now2)]
              in case insert_one new_id (donation s) don of
                   (C', don, inserted_id) \<Rightarrow>
                     (let don = AList.update ''id'' (VStr (str inserted_id)) don;
                          don = AList.delete ''_id'' don
                      in Inr (s\<lparr>donation := C'\<rparr>, don)))))"

text \<open>The dict \<^verbatim>\<open>filt\<close> that \<^verbatim>\<open>list_donations\<close> builds from its four parameters. An
  empty string and \<^verbatim>\<open>False\<close> are falsy, like \<^verbatim>\<open>None\<close>.\<close>

definition truthy_str :: "string option \<Rightarrow> bool" where
  "truthy_str x = (case x of None \<Rightarrow> False | Some s \<Rightarrow> s \<noteq> [])"

definition truthy_bool :: "bool option \<Rightarrow> bool" where
  "truthy_bool x = (case x of None \<Rightarrow> False | Some b \<Rightarrow> b)"

definition list_filter ::
  "string option \<Rightarrow> string option \<Rightarrow> bool option \<Rightarrow> string option \<Rightarrow> query" where
  "list_filter status rid exclude_claimed search =
     (let filt = [];
          filt = (if truthy_str status
                  then AList.update ''status'' (Field (Eq (VStr (the status)))) filt else filt);
          filt = (if truthy_str rid
                  then AList.update ''restaurant_id'' (Field (Eq (VStr (the rid)))) filt else filt);
          filt = (if truthy_bool exclude_claimed
                  then AList.update ''status'' (Field (Eq (VStr ''available''))) filt else filt);
          filt = (if truthy_str search
                  then AList.update ''$or''
                         (OrList [[(''food_item'', Regex (the search) ''i'')],
                                  [(''restaurant_name'', Regex (the search) ''i'')],
                                  [(''pickup_address'', Regex (the search) ''i'')]]) filt
                  else filt)
      in filt)"

definition list_donations ::
  "lib \<Rightarrow> db \<Rightarrow> string option \<Rightarrow> string option \<Rightarrow> bool option \<Rightarrow> string option
     \<Rightarrow> error + doc option list" where
  "list_donations L s status rid exclude_claimed search =
     (case find_sorted L (donation s) (list_filter status rid exclude_claimed search) of
        Inl e \<Rightarrow> Inl e
      | Inr docs \<Rightarrow> Inr (map (\<lambda>d. serialize_doc L (Some d)) docs))"

definition update_donation ::
  "lib \<Rightarrow> db \<Rightarrow> nat \<Rightarrow> string \<Rightarrow> DonationUpdateRequest \<Rightarrow> error + db \<times> doc option" where
  "update_donation L s now donation_id req =
     (let updates = filter (\<lambda>(k, v). v \<noteq> VNone) (model_dump req) in
      if updates = [] then
        (case oid L donation_id of
           Inl e \<Rightarrow> Inl e
         | Inr i \<Rightarrow> Inr (s, serialize_doc L (find_one L (donation s) (by_id i))))
      else
        (let updates = AList.update ''updated_at'' (VDatetime now) updates in
         case oid L donation_id of
           Inl e \<Rightarrow> Inl e
         | Inr i \<Rightarrow>
             (case update_one L (donation s) (by_id i) updates of
                (C', matched_count) \<Rightarrow>
                  if matched_count = 0 then Inl (HTTPException 404 ''Donation not found'')
                  else Inr (s\<lparr>donation := C'\<rparr>, serialize_doc L (find_one L C' (by_id i))))))"

definition delete_donation :: "lib \<Rightarrow> db \<Rightarrow> string \<Rightarrow> error + db \<times> bool" where
  "delete_donation L s donation_id =
     (case oid L donation_id of
        Inl e \<Rightarrow> Inl e
      | Inr i \<Rightarrow>
          (case delete_one L (donation s) (by_id i) of
             (C', deleted_count) \<Rightarrow>
               if deleted_count = 0 then Inl (HTTPException 404 ''Donation not found'')
               else Inr (s\<lparr>donation := C'\<rparr>, True)))"

text \<open>
  \<^verbatim>\<open>claim_donation\<close> talks to the store in two rounds: it reads the user and the
  donation and checks them, then it writes and reads the donation back. \<open>claim_check\<close>
  is the first round and yields the donation's identifier; \<open>claim_write\<close> is the second.
\<close>

definition claim_check :: "lib \<Rightarrow> db \<Rightarrow> string \<Rightarrow> ClaimRequest \<Rightarrow> error + objectid" where
  "claim_check L s donation_id req =
     (case oid L (user_id req) of
        Inl e \<Rightarrow> Inl e
      | Inr uid \<Rightarrow>
          (let usr = find_one L (user s) (by_id uid) in
           if falsy usr \<or> doc_get (the usr) ''role'' \<notin> {VStr ''ngo'', VStr ''society''}
           then Inl (HTTPException 400 ''Invalid claimer'')
           else
             (case oid L donation_id of
                Inl e \<Rightarrow> Inl e
              | Inr i \<Rightarrow>
                  (let don = find_one L (donation s) (by_id i) in
                   if falsy don then Inl (HTTPException 404 ''Donation not found'')
                   else if doc_get (the don) ''status'' \<noteq> VStr ''available''
                   then Inl (HTTPException 400 ''Donation not available'')
                   else Inr i))))"

definition claim_write :: "lib \<Rightarrow> db \<Rightarrow> nat \<Rightarrow> objectid \<Rightarrow> ClaimRequest \<Rightarrow> db \<times> doc option" where
  "claim_write L s now i req =
     (case update_one L (donation s) (by_id i)
             [(''status'', VStr ''claimed''),
              (''claimed_by'', VStr (capitalize (role_text (role req)) @ '': '' @ user_name req)),
              (''claimed_by_id'', VStr (user_id req)),
              (''updated_at'', VDatetime now)] of
        (C', matched_count) \<Rightarrow>
          (s\<lparr>donation := C'\<rparr>, serialize_doc L (find_one L C' (by_id i))))"

definition claim_donation ::
  "lib \<Rightarrow> db \<Rightarrow> nat \<Rightarrow> string \<Rightarrow> ClaimRequest \<Rightarrow> error + db \<times> doc option" where
  "claim_donation L s now donation_id req =
     (case claim_check L s donation_id req of
        Inl e \<Rightarrow> Inl e
      | Inr i \<Rightarrow> Inr (claim_write L s now i req))"

definition mark_delivered :: "lib \<Rightarrow> db \<Rightarrow> nat \<Rightarrow> string \<Rightarrow> error + db \<times> doc option" where
  "mark_delivered L s now donation_id =
     (case oid L donation_id of
        Inl e \<Rightarrow> Inl e
      | Inr i \<Rightarrow>
          (let don = find_one L (donation s) (by_id i) in
           if falsy don then Inl (HTTPException 404 ''Donation not found'')
           else
             (case update_one L (donation s) (by_id i)
                     [(''status'', VStr ''delivered''), (''updated_at'', VDatetime now)] of
                (C', matched_count) \<Rightarrow>
                  Inr (s\<lparr>donation := C'\<rparr>, serialize_doc L (find_one L C' (by_id i))))))"


section \<open>Sequences of operations\<close>

text \<open>
  A request to one of the mutating handlers, with the clock readings and (for a creation)
  the identifier the store draws. A request that fails leaves the store as it was.
\<close>

datatype op =
    Create objectid nat nat DonationCreateRequest
  | Update nat string DonationUpdateRequest
  | Claim nat string ClaimRequest
  | Deliver nat string
  | Delete string

definition state_after :: "db \<Rightarrow> error + db \<times> 'a \<Rightarrow> db" where
  "state_after s r = (case r of Inl e \<Rightarrow> s | Inr (s', body) \<Rightarrow> s')"

fun apply_op :: "lib \<Rightarrow> db \<Rightarrow> op \<Rightarrow> db" where
  "apply_op L s (Create new_id now1 now2 req) = state_after s (create_donation L s new_id now1 now2 req)"
| "apply_op L s (Update now donation_id req) = state_after s (update_donation L s now donation_id req)"
| "apply_op L s (Claim now donation_id req) = state_after s (claim_donation L s now donation_id req)"
| "apply_op L s (Deliver now donation_id) = state_after s (mark_delivered L s now donation_id)"
| "apply_op L s (Delete donation_id) = state_after s (delete_donation L s donation_id)"

fun run :: "lib \<Rightarrow> db \<Rightarrow> op list \<Rightarrow> db" where
  "run L s [] = s"
| "run L s (x # xs) = run L (apply_op L s x) xs"

section \<open>A concrete library, to run the model\<close>

text \<open>
  \<open>hex_ObjectId\<close> accepts the 24-digit hexadecimal strings and reads them without regard
  to case. \<open>dot_regex\<close> is the engine on the patterns made of ordinary characters and the
  dot, which stands for any character but a line feed; the option \<^verbatim>\<open>i\<close> compares
  without regard to case. Patterns with any other metacharacter are outside this stand-in,
  which rejects them.
\<close>

definition is_hex :: "char \<Rightarrow> bool" where
  "is_hex c = (c \<in> set ''0123456789abcdefABCDEF'')"

definition hex_ObjectId :: "string \<Rightarrow> objectid option" where
  "hex_ObjectId s =
     (if length s = 24 \<and> list_all is_hex s then Some (Oid (map lower_char s)) else None)"

definition unary_isoformat :: "nat \<Rightarrow> string" where
  "unary_isoformat t = CHR ''T'' # replicate t (CHR ''+'')"

fun match_here :: "(char \<Rightarrow> char) \<Rightarrow> string \<Rightarrow> string \<Rightarrow> bool" where
  "match_here f [] t = True"
| "match_here f (p # ps) [] = False"
| "match_here f (p # ps) (c # cs) =
     ((if p = CHR ''.'' then c \<noteq> CHR 0x0A else f p = f c) \<and> match_here f ps cs)"

fun match_somewhere :: "(char \<Rightarrow> char) \<Rightarrow> string \<Rightarrow> string \<Rightarrow> bool" where
  "match_somewhere f p [] = match_here f p []"
| "match_somewhere f p (c # cs) = (match_here f p (c # cs) \<or> match_somewhere f p cs)"

definition metachar :: "char \<Rightarrow> bool" where
  "metachar c = (c = CHR 0x5C \<or> c \<in> set ''^$*+?()[]{}|'')"

definition dot_regex :: "string \<Rightarrow> string \<Rightarrow> (string \<Rightarrow> bool) option" where
  "dot_regex p opts =
     (if list_ex metachar p then None
      else Some (match_somewhere (if CHR ''i'' \<in> set opts then lower_char else id) p))"

definition sample_lib :: lib where
  "sample_lib = \<lparr>ObjectId = hex_ObjectId, isoformat = unary_isoformat, regex = dot_regex\<rparr>"

text \<open>
  The words of the specification for the search rule: \<open>s\<close> occurs in \<open>t\<close> as a substring,
  letters compared without regard to case.
\<close>

fun ci_prefix :: "string \<Rightarrow> string \<Rightarrow> bool" where
  "ci_prefix [] t = True"
| "ci_prefix (p # ps) [] = False"
| "ci_prefix (p # ps) (c # cs) = (lower_char p = lower_char c \<and> ci_prefix ps cs)"

fun ci_substring :: "string \<Rightarrow> string \<Rightarrow> bool" where
  "ci_substring s [] = ci_prefix s []"
| "ci_substring s (c # cs) = (ci_prefix s (c # cs) \<or> ci_substring s cs)"

text \<open>A store with one user of each role and no donation, and some requests.\<close>

definition u_restaurant :: string where "u_restaurant = ''aaaaaaaaaaaaaaaaaaaaaaaa''"
definition u_ngo :: string where "u_ngo = ''bbbbbbbbbbbbbbbbbbbbbbbb''"
definition u_society :: string where "u_society = ''cccccccccccccccccccccccc''"
definition d_one :: string where "d_one = ''111111111111111111111111''"
definition d_two :: string where "d_two = ''222222222222222222222222''"

definition user_doc :: "string \<Rightarrow> string \<Rightarrow> string \<Rightarrow> doc" where
  "user_doc i n r =
     [(''_id'', VObjectId (Oid i)), (''name'', VStr n), (''role'', VStr r)]"

definition db0 :: db where
  "db0 = \<lparr>user = [user_doc u_restaurant ''Cafe'' ''restaurant'',
                  user_doc u_ngo ''Helpers Inc'' ''ngo'',
                  user_doc u_society ''Green Block'' ''society''],
          donation = []\<rparr>"

definition rice :: DonationCreateRequest where
  "rice = \<lparr>food_item = ''Rice'', quantity = ''10kg'', pickup_address = ''1 Main St'',
           expiry_time = 9, restaurant_id = u_restaurant, restaurant_name = ''Cafe''\<rparr>"

definition no_fields :: DonationUpdateRequest where
  "no_fields = \<lparr>food_item_opt = None, quantity_opt = None, pickup_address_opt = None,
                expiry_time_opt = None\<rparr>"

definition helpers :: ClaimRequest where
  "helpers = \<lparr>user_id = u_ngo, user_name = ''Helpers Inc'', role = ngo\<rparr>"

definition green :: ClaimRequest where
  "green = \<lparr>user_id = u_society, user_name = ''Green Block'', role = society\<rparr>"

text \<open>The store after the creation of one donation at time 1.\<close>

definition db1 :: db where
  "db1 = run sample_lib db0 [Create (Oid d_one) 1 1 rice]"

definition db_claimed :: db where
  "db_claimed = run sample_lib db0 [Create (Oid d_one) 1 1 rice, Claim 5 d_one helpers]"

definition db_delivered :: db where
  "db_delivered = run sample_lib db0 [Create (Oid d_one) 1 1 rice, Deliver 5 d_one]"

section \<open>The invariants of a donation\<close>

text \<open>
  The specification's wording: the two claim fields are both null exactly when the status
  is \<^verbatim>\<open>available\<close>.
\<close>

definition stated_invariant :: "doc \<Rightarrow> bool" where
  "stated_invariant d =
     ((doc_get d ''claimed_by'' = VNone \<and> doc_get d ''claimed_by_id'' = VNone)
        \<longleftrightarrow> doc_get d ''status'' = VStr ''available'')"

text \<open>
  What the handlers keep: the status is one of the three, the claim fields are null
  together, an available donation has them null and a claimed one has them set.
\<close>

definition lifecycle_inv :: "doc \<Rightarrow> bool" where
  "lifecycle_inv d =
     (doc_get d ''status'' \<in> {VStr ''available'', VStr ''claimed'', VStr ''delivered''}
      \<and> (doc_get d ''claimed_by'' = VNone \<longleftrightarrow> doc_get d ''claimed_by_id'' = VNone)
      \<and> (doc_get d ''status'' = VStr ''available'' \<longrightarrow> doc_get d ''claimed_by'' = VNone)
      \<and> (doc_get d ''status'' = VStr ''claimed'' \<longrightarrow> doc_get d ''claimed_by'' \<noteq> VNone))"

text \<open>
  The identifier resolves to an existing user whose role is \<^verbatim>\<open>ngo\<close> or \<^verbatim>\<open>society\<close>.
\<close>

definition resolves_to_claimer :: "lib \<Rightarrow> db \<Rightarrow> objectid \<Rightarrow> bool" where
  "resolves_to_claimer L s uid =
     (case find_one L (user s) (by_id uid) of
        None \<Rightarrow> False
      | Some u \<Rightarrow> doc_get u ''role'' = VStr ''ngo'' \<or> doc_get u ''role'' = VStr ''society'')"

text \<open>Two more claim requests: by the restaurant's user, and with an identifier that is
  not one.\<close>

definition diner :: ClaimRequest where
  "diner = \<lparr>user_id = u_restaurant, user_name = ''Cafe'', role = ngo\<rparr>"

definition stranger :: ClaimRequest where
  "stranger = \<lparr>user_id = ''xyz'', user_name = ''Nobody'', role = ngo\<rparr>"

text \<open>An update that renames the food, and the store after it.\<close>

definition pasta :: DonationUpdateRequest where
  "pasta = \<lparr>food_item_opt = Some ''Pasta'', quantity_opt = None, pickup_address_opt = None,
            expiry_time_opt = None\<rparr>"

definition db_pasta :: db where
  "db_pasta = run sample_lib db_claimed [Update 7 d_one pasta]"

text \<open>The request supplies no field: all four are \<^verbatim>\<open>None\<close>.\<close>

definition no_field_supplied :: "DonationUpdateRequest \<Rightarrow> bool" where
  "no_field_supplied req =
     (food_item_opt req = None \<and> quantity_opt req = None
      \<and> pickup_address_opt req = None \<and> expiry_time_opt req = None)"

section \<open>Lemmas on documents and collections\<close>

lemma doc_get_update: "doc_get (AList.update k v d) k' = (if k' = k then v else doc_get d k')"
  by (simp add: doc_get_def update_conv')

lemma doc_get_delete: "doc_get (AList.delete k d) k' = (if k' = k then VNone else doc_get d k')"
  by (simp add: doc_get_def delete_conv')

lemma doc_get_set_fields_other:
  "k \<notin> fst ` set upd \<Longrightarrow> doc_get (set_fields upd d) k = doc_get d k"
  unfolding set_fields_def
  by (induction upd arbitrary: d) (auto simp: doc_get_update)

lemma matches_by_id: "matches L (by_id i) d = (doc_get d ''_id'' = VObjectId i)"
  by (simp add: matches_def by_id_def matches_cond_def)

lemma find_one_by_id_Some:
  "find_one L C (by_id i) = Some d \<Longrightarrow> d \<in> set C \<and> doc_get d ''_id'' = VObjectId i \<and> d \<noteq> []"
  unfolding find_one_def
  by (auto simp: find_Some_iff matches_by_id doc_get_def)

lemma falsy_find_one: "falsy (find_one L C (by_id i)) = (find_one L C (by_id i) = None)"
  by (cases "find_one L C (by_id i)") (auto simp: falsy_def dest: find_one_by_id_Some)

text \<open>An update of the first match rewrites one position and nothing else.\<close>

lemma update_first_split:
  "List.find P C = Some d \<Longrightarrow>
   \<exists>pre post. C = pre @ d # post \<and> (\<forall>x \<in> set pre. \<not> P x)
      \<and> update_first P f C = (pre @ f d # post, 1)"
proof (induction C)
  case Nil
  then show ?case by simp
next
  case (Cons a C)
  show ?case
  proof (cases "P a")
    case True
    with Cons.prems have "a = d" by simp
    with True show ?thesis by (intro exI[of _ "[]"] exI[of _ C]) simp
  next
    case False
    with Cons.prems have "List.find P C = Some d" by simp
    from Cons.IH[OF this] obtain pre post where
      h: "C = pre @ d # post" "\<forall>x \<in> set pre. \<not> P x" "update_first P f C = (pre @ f d # post, 1)"
      by blast
    with False show ?thesis by (intro exI[of _ "a # pre"] exI[of _ post]) simp
  qed
qed

lemma update_first_none:
  "List.find P C = None \<Longrightarrow> update_first P f C = (C, 0)"
  by (induction C) (auto split: if_splits)

lemma find_in_split:
  "(\<forall>x \<in> set pre. \<not> P x) \<Longrightarrow> P y \<Longrightarrow> List.find P (pre @ y # post) = Some y"
  by (induction pre) auto

lemma update_first_set:
  "update_first P f C = (C', n) \<Longrightarrow> set C' \<subseteq> set C \<union> f ` {d \<in> set C. P d}"
  by (induction C arbitrary: C' n) (auto split: if_splits prod.splits)

lemma update_first_map:
  "(\<And>d. g (f d) = g d) \<Longrightarrow> map g (fst (update_first P f C)) = map g C"
  by (induction C) (auto split: prod.splits)

lemma delete_first_set: "set (fst (delete_first P C)) \<subseteq> set C"
  by (induction C) (auto split: prod.splits)

lemma update_one_all:
  assumes "update_one L C q upd = (C', n)" and "list_all Q C"
    and "\<And>d. Q d \<Longrightarrow> Q (set_fields upd d)"
  shows "list_all Q C'"
  using update_first_set[OF assms(1)[unfolded update_one_def]] assms(2,3)
  by (auto simp: list_all_iff)

lemma delete_one_all:
  assumes "delete_one L C q = (C', n)" and "list_all Q C"
  shows "list_all Q C'"
  using delete_first_set[of "matches L q" C] assms
  by (auto simp: list_all_iff delete_one_def)

lemma request_keys:
  "fst ` set (AList.update ''updated_at'' v (filter (\<lambda>(k, v). v \<noteq> VNone) (model_dump req)))
     \<subseteq> {''food_item'', ''quantity'', ''pickup_address'', ''expiry_time'', ''updated_at''}"
  by (auto simp: model_dump_def AList.update_keys split: if_splits)

section \<open>The claim fields and the status\<close>

lemma inv_claim_fields:
  "lifecycle_inv (set_fields [(''status'', VStr ''claimed''), (''claimed_by'', VStr a),
      (''claimed_by_id'', VStr b), (''updated_at'', VDatetime t)] d)"
  by (simp add: lifecycle_inv_def set_fields_def doc_get_update)

lemma inv_deliver_fields:
  "lifecycle_inv d \<Longrightarrow>
   lifecycle_inv (set_fields [(''status'', VStr ''delivered''), (''updated_at'', VDatetime t)] d)"
  by (simp add: lifecycle_inv_def set_fields_def doc_get_update)

lemma inv_update_fields:
  assumes "lifecycle_inv d"
  shows "lifecycle_inv (set_fields (AList.update ''updated_at'' v
            (filter (\<lambda>(k, v). v \<noteq> VNone) (model_dump req))) d)"
proof -
  let ?u = "AList.update ''updated_at'' v (filter (\<lambda>(k, v). v \<noteq> VNone) (model_dump req))"
  have k: "''status'' \<notin> fst ` set ?u" "''claimed_by'' \<notin> fst ` set ?u"
    "''claimed_by_id'' \<notin> fst ` set ?u"
    using request_keys[of v req] by auto
  show ?thesis
    using assms
    by (auto simp: lifecycle_inv_def doc_get_set_fields_other[OF k(1)]
        doc_get_set_fields_other[OF k(2)] doc_get_set_fields_other[OF k(3)])
qed

lemma inv_create:
  assumes "list_all lifecycle_inv (donation s)"
  shows "list_all lifecycle_inv (donation (state_after s (create_donation L s new_id now1 now2 req)))"
  using assms
  by (auto simp: create_donation_def state_after_def insert_one_def Let_def lifecycle_inv_def
      doc_get_update doc_get_def split: sum.splits)

lemma inv_update:
  assumes "list_all lifecycle_inv (donation s)"
  shows "list_all lifecycle_inv (donation (state_after s (update_donation L s now i req)))"
  using assms
  by (auto simp: update_donation_def state_after_def Let_def
      split: sum.splits prod.splits if_splits
      elim!: update_one_all[where Q = lifecycle_inv] intro: inv_update_fields)

lemma inv_claim:
  assumes "list_all lifecycle_inv (donation s)"
  shows "list_all lifecycle_inv (donation (state_after s (claim_donation L s now i req)))"
  using assms
  by (auto simp: claim_donation_def claim_write_def state_after_def
      split: sum.splits prod.splits
      elim!: update_one_all[where Q = lifecycle_inv] intro: inv_claim_fields)

lemma inv_deliver:
  assumes "list_all lifecycle_inv (donation s)"
  shows "list_all lifecycle_inv (donation (state_after s (mark_delivered L s now i)))"
  using assms
  by (auto simp: mark_delivered_def state_after_def Let_def
      split: sum.splits prod.splits if_splits
      elim!: update_one_all[where Q = lifecycle_inv] intro: inv_deliver_fields)

lemma inv_delete:
  assumes "list_all lifecycle_inv (donation s)"
  shows "list_all lifecycle_inv (donation (state_after s (delete_donation L s i)))"
  using assms
  by (auto simp: delete_donation_def state_after_def
      split: sum.splits prod.splits if_splits
      elim!: delete_one_all[where Q = lifecycle_inv])

lemma inv_apply_op:
  "list_all lifecycle_inv (donation s) \<Longrightarrow> list_all lifecycle_inv (donation (apply_op L s x))"
  by (cases x) (simp_all add: inv_create inv_update inv_claim inv_deliver inv_delete)

lemma inv_run:
  "list_all lifecycle_inv (donation s) \<Longrightarrow> list_all lifecycle_inv (donation (run L s ops))"
  by (induction ops arbitrary: s) (simp_all add: inv_apply_op)

text \<open>
  C1, as the code has it. In every donation record reached from a store without donations
  by a sequence of create, update, claim, deliver and delete requests: if the status is
  \<^verbatim>\<open>available\<close> then \<^verbatim>\<open>claimed_by\<close> and \<^verbatim>\<open>claimed_by_id\<close> are both null; if the
  status is \<^verbatim>\<open>claimed\<close> then both are set; and if both are null then the status is
  \<^verbatim>\<open>available\<close> or \<^verbatim>\<open>delivered\<close>.
\<close>

theorem claim_fields_follow_status:
  assumes "donation s0 = []" and "d \<in> set (donation (run L s0 ops))"
  shows "(doc_get d ''status'' = VStr ''available'' \<longrightarrow>
            doc_get d ''claimed_by'' = VNone \<and> doc_get d ''claimed_by_id'' = VNone)
       \<and> (doc_get d ''status'' = VStr ''claimed'' \<longrightarrow>
            doc_get d ''claimed_by'' \<noteq> VNone \<and> doc_get d ''claimed_by_id'' \<noteq> VNone)
       \<and> (doc_get d ''claimed_by'' = VNone \<and> doc_get d ''claimed_by_id'' = VNone \<longrightarrow>
            doc_get d ''status'' = VStr ''available'' \<or> doc_get d ''status'' = VStr ''delivered'')"
proof -
  have "list_all lifecycle_inv (donation (run L s0 ops))"
    using assms(1) by (intro inv_run) simp
  with assms(2) have "lifecycle_inv d" by (simp add: list_all_iff)
  then show ?thesis unfolding lifecycle_inv_def by auto
qed

theorem claim_fields_follow_status_witness:
  "donation db0 = []
   \<and> hd (donation db_claimed) \<in> set (donation db_claimed)
   \<and> doc_get (hd (donation db_claimed)) ''status'' = VStr ''claimed''
   \<and> doc_get (hd (donation db_claimed)) ''claimed_by'' \<noteq> VNone
   \<and> doc_get (hd (donation db_claimed)) ''claimed_by_id'' \<noteq> VNone"
proof -
  have e: "donation db0 = []" by (simp add: db0_def)
  have m: "hd (donation db_claimed) \<in> set (donation db_claimed)" by code_simp
  have c: "doc_get (hd (donation db_claimed)) ''status'' = VStr ''claimed''" by code_simp
  from claim_fields_follow_status[OF e m[unfolded db_claimed_def]] e m c
  show ?thesis by (simp add: db_claimed_def)
qed

text \<open>
  C1, as stated, fails: a donation delivered without having been claimed has both claim
  fields null and is not \<^verbatim>\<open>available\<close>.
\<close>

theorem deliver_breaks_stated_invariant: "\<not> list_all stated_invariant (donation db_delivered)"
  by code_simp

section \<open>Claiming\<close>

lemma doc_get_map_values:
  "g VNone = VNone \<Longrightarrow> doc_get (map (\<lambda>(k, v). (k, g v)) d) k = g (doc_get d k)"
  by (induction d) (auto simp: doc_get_def)

lemma serialize_doc_get:
  assumes "d \<noteq> []" and "k \<noteq> ''id''" and "k \<noteq> ''_id''"
  shows "\<exists>r. serialize_doc L (Some d) = Some r \<and> doc_get r k = iso_val L (doc_get d k)"
proof -
  have n: "iso_val L VNone = VNone" by (simp add: iso_val_def)
  show ?thesis using assms
    by (cases "doc_get d ''_id''")
      (simp_all add: serialize_doc_def falsy_def doc_get_map_values[of "iso_val L", OF n]
        doc_get_update doc_get_delete)
qed

lemma update_one_found:
  assumes "find_one L C (by_id i) = Some d" and "''_id'' \<notin> fst ` set upd"
  shows "\<exists>pre post. C = pre @ d # post
      \<and> update_one L C (by_id i) upd = (pre @ set_fields upd d # post, 1)
      \<and> find_one L (pre @ set_fields upd d # post) (by_id i) = Some (set_fields upd d)"
proof -
  from update_first_split[OF assms(1)[unfolded find_one_def], of "set_fields upd"]
  obtain pre post where h: "C = pre @ d # post" "\<forall>x \<in> set pre. \<not> matches L (by_id i) x"
    "update_first (matches L (by_id i)) (set_fields upd) C = (pre @ set_fields upd d # post, 1)"
    by blast
  have "matches L (by_id i) d" using assms(1) by (auto simp: find_one_def find_Some_iff)
  then have "matches L (by_id i) (set_fields upd d)"
    by (simp add: matches_by_id doc_get_set_fields_other[OF assms(2)])
  with h show ?thesis
    by (intro exI[of _ pre] exI[of _ post]) (simp add: update_one_def find_one_def find_in_split)
qed

lemma update_one_missing:
  "find_one L C (by_id i) = None \<Longrightarrow> update_one L C (by_id i) upd = (C, 0)"
  by (simp add: update_one_def find_one_def update_first_none)

lemma claim_check_cases:
  "claim_check L s did req =
     (case ObjectId L (user_id req) of
        None \<Rightarrow> Inl MalformedIdentifier
      | Some uid \<Rightarrow>
          if \<not> resolves_to_claimer L s uid then Inl InvalidClaimer
          else (case ObjectId L did of
                  None \<Rightarrow> Inl MalformedIdentifier
                | Some i \<Rightarrow>
                    (case find_one L (donation s) (by_id i) of
                       None \<Rightarrow> Inl NotFound
                     | Some d \<Rightarrow>
                         if doc_get d ''status'' \<noteq> VStr ''available'' then Inl InvalidState
                         else Inr i)))"
  by (auto simp: claim_check_def oid_def resolves_to_claimer_def falsy_find_one Let_def
      split: option.splits)

text \<open>
  C2, as the code has it. \<^verbatim>\<open>claim_donation\<close> checks in this order: a \<^verbatim>\<open>user_id\<close> that
  is not a well-formed identifier fails with \<open>MalformedIdentifier\<close>; otherwise a
  \<^verbatim>\<open>user_id\<close> that does not resolve to a user with role ngo or society fails with
  \<open>InvalidClaimer\<close>; otherwise a \<^verbatim>\<open>donation_id\<close> that is not well-formed fails with
  \<open>MalformedIdentifier\<close>; otherwise one that resolves to no donation fails with
  \<open>NotFound\<close>; otherwise a status other than \<^verbatim>\<open>available\<close> fails with
  \<open>InvalidState\<close>; otherwise the claim is written.
\<close>

theorem claim_checks_in_order:
  "(ObjectId L (user_id req) = None \<longrightarrow>
      claim_donation L s now did req = Inl MalformedIdentifier)
   \<and> (\<forall>uid. ObjectId L (user_id req) = Some uid \<longrightarrow>
        (\<not> resolves_to_claimer L s uid \<longrightarrow>
           claim_donation L s now did req = Inl InvalidClaimer)
      \<and> (resolves_to_claimer L s uid \<longrightarrow>
           (ObjectId L did = None \<longrightarrow> claim_donation L s now did req = Inl MalformedIdentifier)
         \<and> (\<forall>i. ObjectId L did = Some i \<longrightarrow>
              (find_one L (donation s) (by_id i) = None \<longrightarrow>
                 claim_donation L s now did req = Inl NotFound)
            \<and> (\<forall>d. find_one L (donation s) (by_id i) = Some d \<longrightarrow>
                 (doc_get d ''status'' \<noteq> VStr ''available'' \<longrightarrow>
                    claim_donation L s now did req = Inl InvalidState)
               \<and> (doc_get d ''status'' = VStr ''available'' \<longrightarrow>
                    claim_donation L s now did req = Inr (claim_write L s now i req))))))"
  by (simp add: claim_donation_def claim_check_cases)

theorem claim_checks_in_order_witness:
  "claim_donation sample_lib db1 6 d_two diner = Inl InvalidClaimer
   \<and> claim_donation sample_lib db1 6 d_two helpers = Inl NotFound
   \<and> claim_donation sample_lib db_delivered 6 d_one helpers = Inl InvalidState"
proof -
  have u: "ObjectId sample_lib (user_id helpers) = Some (Oid u_ngo)"
    "ObjectId sample_lib (user_id diner) = Some (Oid u_restaurant)" by code_simp+
  have r: "resolves_to_claimer sample_lib db1 (Oid u_ngo)"
    "resolves_to_claimer sample_lib db_delivered (Oid u_ngo)"
    "\<not> resolves_to_claimer sample_lib db1 (Oid u_restaurant)" by code_simp+
  have i: "ObjectId sample_lib d_one = Some (Oid d_one)"
    "ObjectId sample_lib d_two = Some (Oid d_two)" by code_simp+
  have f: "find_one sample_lib (donation db1) (by_id (Oid d_two)) = None"
    "find_one sample_lib (donation db_delivered) (by_id (Oid d_one)) = Some (hd (donation db_delivered))"
    by code_simp+
  have st: "doc_get (hd (donation db_delivered)) ''status'' \<noteq> VStr ''available''" by code_simp
  from claim_checks_in_order[of sample_lib diner db1 6 d_two] u r
  have 1: "claim_donation sample_lib db1 6 d_two diner = Inl InvalidClaimer" by simp
  from claim_checks_in_order[of sample_lib helpers db1 6 d_two] u r i f
  have 2: "claim_donation sample_lib db1 6 d_two helpers = Inl NotFound" by simp
  from claim_checks_in_order[of sample_lib helpers db_delivered 6 d_one] u r i f st
  have 3: "claim_donation sample_lib db_delivered 6 d_one helpers = Inl InvalidState" by simp
  from 1 2 3 show ?thesis by simp
qed

text \<open>
  C2, as stated, fails: a \<^verbatim>\<open>user_id\<close> that is no identifier resolves to no user, and the
  call fails with \<open>MalformedIdentifier\<close>, not with \<open>InvalidClaimer\<close>.
\<close>

theorem malformed_claimer_id:
  "claim_donation sample_lib db1 6 d_one stranger = Inl MalformedIdentifier
   \<and> claim_donation sample_lib db1 6 d_one stranger \<noteq> Inl InvalidClaimer"
  by code_simp

lemma capitalize_role:
  "capitalize (role_text r) = (case r of ngo \<Rightarrow> ''Ngo'' | society \<Rightarrow> ''Society'')"
  by (cases r) (simp_all add: capitalize_def upper_char_def lower_char_def)

lemma iso_val_simps: "iso_val L (VStr x) = VStr x" "iso_val L VNone = VNone"
  by (simp_all add: iso_val_def)

text \<open>
  C6. A successful claim returns the donation with status \<^verbatim>\<open>claimed\<close>, with
  \<^verbatim>\<open>claimed_by\<close> the role label with its first letter in upper case, then a colon and
  a space, then the user's name, and with \<^verbatim>\<open>claimed_by_id\<close> the user's identifier.
\<close>

theorem claim_result:
  assumes "claim_donation L s now did req = Inr (s', r)"
  shows "\<exists>d. r = Some d
      \<and> doc_get d ''status'' = VStr ''claimed''
      \<and> doc_get d ''claimed_by'' =
          VStr ((case role req of ngo \<Rightarrow> ''Ngo'' | society \<Rightarrow> ''Society'') @ '': '' @ user_name req)
      \<and> doc_get d ''claimed_by_id'' = VStr (user_id req)"
proof -
  let ?upd = "[(''status'', VStr ''claimed''),
      (''claimed_by'', VStr (capitalize (role_text (role req)) @ '': '' @ user_name req)),
      (''claimed_by_id'', VStr (user_id req)),
      (''updated_at'', VDatetime now)]"
  from assms obtain i where c: "claim_check L s did req = Inr i"
    and w: "claim_write L s now i req = (s', r)"
    by (auto simp: claim_donation_def split: sum.splits)
  from c obtain d0 where f: "find_one L (donation s) (by_id i) = Some d0"
    by (auto simp: claim_check_cases split: option.splits if_splits)
  have k: "''_id'' \<notin> fst ` set ?upd" by simp
  from update_one_found[OF f k] obtain pre post where
    u: "update_one L (donation s) (by_id i) ?upd = (pre @ set_fields ?upd d0 # post, 1)"
    and g: "find_one L (pre @ set_fields ?upd d0 # post) (by_id i) = Some (set_fields ?upd d0)"
    by blast
  let ?d = "set_fields ?upd d0"
  from w u g have r: "r = serialize_doc L (Some ?d)" by (simp add: claim_write_def)
  have ne: "?d \<noteq> []" using find_one_by_id_Some[OF g] by simp
  from serialize_doc_get[OF ne, of "''status''" L] obtain x where
    x: "serialize_doc L (Some ?d) = Some x" and x1: "doc_get x ''status'' = iso_val L (doc_get ?d ''status'')"
    by auto
  from serialize_doc_get[OF ne, of "''claimed_by''" L] x
  have x2: "doc_get x ''claimed_by'' = iso_val L (doc_get ?d ''claimed_by'')" by auto
  from serialize_doc_get[OF ne, of "''claimed_by_id''" L] x
  have x3: "doc_get x ''claimed_by_id'' = iso_val L (doc_get ?d ''claimed_by_id'')" by auto
  have v: "doc_get ?d ''status'' = VStr ''claimed''"
    "doc_get ?d ''claimed_by'' = VStr (capitalize (role_text (role req)) @ '': '' @ user_name req)"
    "doc_get ?d ''claimed_by_id'' = VStr (user_id req)"
    by (simp_all add: set_fields_def doc_get_update)
  have "doc_get x ''status'' = VStr ''claimed''"
    "doc_get x ''claimed_by'' = VStr (capitalize (role_text (role req)) @ '': '' @ user_name req)"
    "doc_get x ''claimed_by_id'' = VStr (user_id req)"
    unfolding x1 x2 x3 v by (simp_all add: iso_val_simps)
  with r x show ?thesis
    by (simp add: capitalize_role)
qed

theorem claim_result_witness:
  "claim_donation sample_lib db1 5 d_one helpers = Inr (db_claimed, serialize_doc sample_lib (Some (hd (donation db_claimed))))
   \<and> doc_get (the (serialize_doc sample_lib (Some (hd (donation db_claimed))))) ''status'' = VStr ''claimed''
   \<and> doc_get (the (serialize_doc sample_lib (Some (hd (donation db_claimed))))) ''claimed_by'' = VStr ''Ngo: Helpers Inc''
   \<and> doc_get (the (serialize_doc sample_lib (Some (hd (donation db_claimed))))) ''claimed_by_id'' = VStr u_ngo"
proof -
  have e: "claim_donation sample_lib db1 5 d_one helpers
      = Inr (db_claimed, serialize_doc sample_lib (Some (hd (donation db_claimed))))"
    by code_simp
  have h: "role helpers = ngo" "user_name helpers = ''Helpers Inc''" "user_id helpers = u_ngo"
    by (simp_all add: helpers_def)
  from claim_result[OF e] e show ?thesis by (auto simp: h)
qed

text \<open>
  C7, as the code has it. \<^verbatim>\<open>mark_delivered\<close> fails with \<open>MalformedIdentifier\<close> when
  \<^verbatim>\<open>donation_id\<close> is not a well-formed identifier and with \<open>NotFound\<close> when it
  resolves to no donation; otherwise it succeeds, whatever the current status, and the
  donation returned and the donation stored have status \<^verbatim>\<open>delivered\<close>.
\<close>

theorem deliver_from_any_status:
  "(ObjectId L did = None \<longrightarrow> mark_delivered L s now did = Inl MalformedIdentifier)
   \<and> (\<forall>i. ObjectId L did = Some i \<longrightarrow>
        (find_one L (donation s) (by_id i) = None \<longrightarrow>
           mark_delivered L s now did = Inl NotFound)
      \<and> (\<forall>d. find_one L (donation s) (by_id i) = Some d \<longrightarrow>
           (\<exists>s' stored body.
               mark_delivered L s now did = Inr (s', Some body)
             \<and> find_one L (donation s') (by_id i) = Some stored
             \<and> doc_get stored ''status'' = VStr ''delivered''
             \<and> doc_get body ''status'' = VStr ''delivered'')))"
proof (intro conjI allI impI)
  assume "ObjectId L did = None"
  then show "mark_delivered L s now did = Inl MalformedIdentifier"
    by (simp add: mark_delivered_def oid_def)
next
  fix i assume "ObjectId L did = Some i" "find_one L (donation s) (by_id i) = None"
  then show "mark_delivered L s now did = Inl NotFound"
    by (simp add: mark_delivered_def oid_def falsy_def)
next
  fix i d
  assume i: "ObjectId L did = Some i" and f: "find_one L (donation s) (by_id i) = Some d"
  let ?upd = "[(''status'', VStr ''delivered''), (''updated_at'', VDatetime now)]"
  let ?d = "set_fields ?upd d"
  have k: "''_id'' \<notin> fst ` set ?upd" by simp
  from update_one_found[OF f k] obtain pre post where
    u: "update_one L (donation s) (by_id i) ?upd = (pre @ ?d # post, 1)"
    and g: "find_one L (pre @ ?d # post) (by_id i) = Some ?d"
    by blast
  have ne: "?d \<noteq> []" using find_one_by_id_Some[OF g] by simp
  from serialize_doc_get[OF ne, of "''status''" L] obtain x where
    x: "serialize_doc L (Some ?d) = Some x"
    and x1: "doc_get x ''status'' = iso_val L (doc_get ?d ''status'')"
    by auto
  have v: "doc_get ?d ''status'' = VStr ''delivered''"
    by (simp add: set_fields_def doc_get_update)
  have "mark_delivered L s now did = Inr (s\<lparr>donation := pre @ ?d # post\<rparr>, Some x)"
    using i f u g x find_one_by_id_Some[OF f]
    by (simp add: mark_delivered_def oid_def falsy_def)
  moreover have "find_one L (donation (s\<lparr>donation := pre @ ?d # post\<rparr>)) (by_id i) = Some ?d"
    using g by simp
  moreover have "doc_get x ''status'' = VStr ''delivered''"
    unfolding x1 v by (simp add: iso_val_simps)
  ultimately show "\<exists>s' stored body.
               mark_delivered L s now did = Inr (s', Some body)
             \<and> find_one L (donation s') (by_id i) = Some stored
             \<and> doc_get stored ''status'' = VStr ''delivered''
             \<and> doc_get body ''status'' = VStr ''delivered''"
    using v by blast
qed

theorem deliver_from_any_status_witness:
  "mark_delivered sample_lib db1 5 d_two = Inl NotFound
   \<and> mark_delivered sample_lib db1 5 d_one
       = Inr (db_delivered, serialize_doc sample_lib (Some (hd (donation db_delivered))))
   \<and> doc_get (hd (donation db1)) ''status'' = VStr ''available''
   \<and> doc_get (hd (donation db_delivered)) ''status'' = VStr ''delivered''"
proof -
  have i: "ObjectId sample_lib d_one = Some (Oid d_one)"
    "ObjectId sample_lib d_two = Some (Oid d_two)" by code_simp+
  have f: "find_one sample_lib (donation db1) (by_id (Oid d_two)) = None"
    "find_one sample_lib (donation db1) (by_id (Oid d_one)) = Some (hd (donation db1))"
    by code_simp+
  have e: "mark_delivered sample_lib db1 5 d_one
       = Inr (db_delivered, serialize_doc sample_lib (Some (hd (donation db_delivered))))"
    "doc_get (hd (donation db1)) ''status'' = VStr ''available''"
    "find_one sample_lib (donation db_delivered) (by_id (Oid d_one)) = Some (hd (donation db_delivered))"
    by code_simp+
  from deliver_from_any_status[of sample_lib d_two db1 5] i f
  have 1: "mark_delivered sample_lib db1 5 d_two = Inl NotFound" by simp
  from deliver_from_any_status[of sample_lib d_one db1 5] i f e
  have 2: "doc_get (hd (donation db_delivered)) ''status'' = VStr ''delivered''" by auto
  from 1 2 e show ?thesis by simp
qed

text \<open>
  C7, as stated, fails: a \<^verbatim>\<open>donation_id\<close> that is no identifier resolves to no donation,
  and the call fails with \<open>MalformedIdentifier\<close>, not with \<open>NotFound\<close>.
\<close>

theorem malformed_donation_id:
  "mark_delivered sample_lib db1 5 ''xyz'' = Inl MalformedIdentifier
   \<and> mark_delivered sample_lib db1 5 ''xyz'' \<noteq> Inl NotFound"
  by code_simp

text \<open>
  C8. An update, whatever fields it supplies and whether it succeeds or fails, leaves the
  status, \<^verbatim>\<open>claimed_by\<close> and \<^verbatim>\<open>claimed_by_id\<close> of every donation as they were.
\<close>

theorem update_keeps_claim_fields:
  assumes "update_donation L s now did req = Inr (s', body)"
  shows "map (\<lambda>d. (doc_get d ''status'', doc_get d ''claimed_by'', doc_get d ''claimed_by_id''))
           (donation s')
       = map (\<lambda>d. (doc_get d ''status'', doc_get d ''claimed_by'', doc_get d ''claimed_by_id''))
           (donation s)"
proof (cases "filter (\<lambda>(k, v). v \<noteq> VNone) (model_dump req) = []")
  case True
  with assms have "s' = s"
    by (auto simp: update_donation_def split: sum.splits)
  then show ?thesis by simp
next
  case False
  let ?u = "AList.update ''updated_at'' (VDatetime now)
              (filter (\<lambda>(k, v). v \<noteq> VNone) (model_dump req))"
  let ?g = "\<lambda>d. (doc_get d ''status'', doc_get d ''claimed_by'', doc_get d ''claimed_by_id'')"
  have k: "''status'' \<notin> fst ` set ?u" "''claimed_by'' \<notin> fst ` set ?u"
    "''claimed_by_id'' \<notin> fst ` set ?u"
    using request_keys[of "VDatetime now" req] by auto
  have same: "?g (set_fields ?u d) = ?g d" for d
    by (simp add: doc_get_set_fields_other[OF k(1)] doc_get_set_fields_other[OF k(2)]
        doc_get_set_fields_other[OF k(3)])
  from assms False obtain i where i: "oid L did = Inr i"
    by (cases "oid L did") (simp_all add: update_donation_def)
  obtain C' n where u: "update_one L (donation s) (by_id i) ?u = (C', n)"
    by (cases "update_one L (donation s) (by_id i) ?u")
  from assms False i u have s': "s' = s\<lparr>donation := C'\<rparr>"
    by (simp add: update_donation_def split: if_splits)
  have "map ?g (fst (update_first (matches L (by_id i)) (set_fields ?u) (donation s)))
      = map ?g (donation s)"
    using same by (rule update_first_map)
  with u have "map ?g C' = map ?g (donation s)"
    by (simp add: update_one_def)
  with s' show ?thesis by simp
qed

theorem update_keeps_claim_fields_witness:
  "update_donation sample_lib db_claimed 7 d_one pasta
     = Inr (db_pasta, serialize_doc sample_lib (Some (hd (donation db_pasta))))
   \<and> doc_get (hd (donation db_pasta)) ''food_item'' = VStr ''Pasta''
   \<and> map (\<lambda>d. (doc_get d ''status'', doc_get d ''claimed_by'', doc_get d ''claimed_by_id''))
         (donation db_pasta)
     = map (\<lambda>d. (doc_get d ''status'', doc_get d ''claimed_by'', doc_get d ''claimed_by_id''))
         (donation db_claimed)"
proof -
  have e: "update_donation sample_lib db_claimed 7 d_one pasta
     = Inr (db_pasta, serialize_doc sample_lib (Some (hd (donation db_pasta))))"
    by code_simp
  have f: "doc_get (hd (donation db_pasta)) ''food_item'' = VStr ''Pasta''" by code_simp
  from update_keeps_claim_fields[OF e] e f show ?thesis by simp
qed

section \<open>Updating\<close>

lemma updates_empty:
  "(filter (\<lambda>(k, v). v \<noteq> VNone) (model_dump req) = []) = no_field_supplied req"
  by (cases "food_item_opt req"; cases "quantity_opt req"; cases "pickup_address_opt req";
      cases "expiry_time_opt req")
    (simp_all add: model_dump_def opt_val_def no_field_supplied_def)

lemma set_fields_request:
  fixes req now
  defines "u \<equiv> AList.update ''updated_at'' (VDatetime now)
              (filter (\<lambda>(k, v). v \<noteq> VNone) (model_dump req))"
  shows "doc_get (set_fields u d) ''food_item''
           = (case food_item_opt req of Some v \<Rightarrow> VStr v | None \<Rightarrow> doc_get d ''food_item'')"
    and "doc_get (set_fields u d) ''quantity''
           = (case quantity_opt req of Some v \<Rightarrow> VStr v | None \<Rightarrow> doc_get d ''quantity'')"
    and "doc_get (set_fields u d) ''pickup_address''
           = (case pickup_address_opt req of Some v \<Rightarrow> VStr v | None \<Rightarrow> doc_get d ''pickup_address'')"
    and "doc_get (set_fields u d) ''expiry_time''
           = (case expiry_time_opt req of Some t \<Rightarrow> VDatetime t | None \<Rightarrow> doc_get d ''expiry_time'')"
    and "doc_get (set_fields u d) ''updated_at'' = VDatetime now"
  unfolding u_def
  by (cases "food_item_opt req"; cases "quantity_opt req"; cases "pickup_address_opt req";
      cases "expiry_time_opt req";
      simp add: model_dump_def opt_val_def set_fields_def doc_get_update)+

lemma update_missing_with_fields:
  assumes "ObjectId L did = Some i" and "find_one L (donation s) (by_id i) = None"
    and "\<not> no_field_supplied req"
  shows "update_donation L s now did req = Inl NotFound"
  using assms
  by (simp add: update_donation_def updates_empty oid_def update_one_missing)

text \<open>
  C3, as the code has it. On an existing donation, an update that supplies at least one
  field rewrites that donation in place: each of \<^verbatim>\<open>food_item\<close>, \<^verbatim>\<open>quantity\<close>,
  \<^verbatim>\<open>pickup_address\<close> and \<^verbatim>\<open>expiry_time\<close> takes the supplied value or keeps its own,
  \<^verbatim>\<open>updated_at\<close> becomes the time of the call, and every other field is as it was.
  An update that supplies no field returns the donation and writes nothing.
\<close>

theorem update_applies_supplied_fields:
  assumes "ObjectId L did = Some i" and "find_one L (donation s) (by_id i) = Some d"
  shows "(no_field_supplied req \<longrightarrow>
            update_donation L s now did req = Inr (s, serialize_doc L (Some d)))
       \<and> (\<not> no_field_supplied req \<longrightarrow>
            (\<exists>pre post d'.
                donation s = pre @ d # post
              \<and> update_donation L s now did req
                  = Inr (s\<lparr>donation := pre @ d' # post\<rparr>, serialize_doc L (Some d'))
              \<and> doc_get d' ''food_item''
                  = (case food_item_opt req of Some v \<Rightarrow> VStr v | None \<Rightarrow> doc_get d ''food_item'')
              \<and> doc_get d' ''quantity''
                  = (case quantity_opt req of Some v \<Rightarrow> VStr v | None \<Rightarrow> doc_get d ''quantity'')
              \<and> doc_get d' ''pickup_address''
                  = (case pickup_address_opt req of Some v \<Rightarrow> VStr v
                     | None \<Rightarrow> doc_get d ''pickup_address'')
              \<and> doc_get d' ''expiry_time''
                  = (case expiry_time_opt req of Some t \<Rightarrow> VDatetime t
                     | None \<Rightarrow> doc_get d ''expiry_time'')
              \<and> doc_get d' ''updated_at'' = VDatetime now
              \<and> (\<forall>k. k \<notin> {''food_item'', ''quantity'', ''pickup_address'', ''expiry_time'',
                           ''updated_at''} \<longrightarrow> doc_get d' k = doc_get d k)))"
proof (intro conjI impI)
  assume "no_field_supplied req"
  with assms show "update_donation L s now did req = Inr (s, serialize_doc L (Some d))"
    by (simp add: update_donation_def updates_empty oid_def)
next
  assume n: "\<not> no_field_supplied req"
  let ?u = "AList.update ''updated_at'' (VDatetime now)
              (filter (\<lambda>(k, v). v \<noteq> VNone) (model_dump req))"
  let ?d = "set_fields ?u d"
  have k: "''_id'' \<notin> fst ` set ?u"
    using request_keys[of "VDatetime now" req] by auto
  from update_one_found[OF assms(2) k] obtain pre post where
    c: "donation s = pre @ d # post"
    and u: "update_one L (donation s) (by_id i) ?u = (pre @ ?d # post, 1)"
    and g: "find_one L (pre @ ?d # post) (by_id i) = Some ?d"
    by blast
  have r: "update_donation L s now did req
      = Inr (s\<lparr>donation := pre @ ?d # post\<rparr>, serialize_doc L (Some ?d))"
    using n assms(1) u g by (simp add: update_donation_def updates_empty oid_def Let_def)
  have o: "\<forall>k. k \<notin> {''food_item'', ''quantity'', ''pickup_address'', ''expiry_time'',
                           ''updated_at''} \<longrightarrow> doc_get ?d k = doc_get d k"
  proof (intro allI impI)
    fix key :: string
    assume "key \<notin> {''food_item'', ''quantity'', ''pickup_address'', ''expiry_time'', ''updated_at''}"
    with request_keys[of "VDatetime now" req] have "key \<notin> fst ` set ?u" by blast
    then show "doc_get ?d key = doc_get d key" by (rule doc_get_set_fields_other)
  qed
  show "\<exists>pre post d'.
                donation s = pre @ d # post
              \<and> update_donation L s now did req
                  = Inr (s\<lparr>donation := pre @ d' # post\<rparr>, serialize_doc L (Some d'))
              \<and> doc_get d' ''food_item''
                  = (case food_item_opt req of Some v \<Rightarrow> VStr v | None \<Rightarrow> doc_get d ''food_item'')
              \<and> doc_get d' ''quantity''
                  = (case quantity_opt req of Some v \<Rightarrow> VStr v | None \<Rightarrow> doc_get d ''quantity'')
              \<and> doc_get d' ''pickup_address''
                  = (case pickup_address_opt req of Some v \<Rightarrow> VStr v
                     | None \<Rightarrow> doc_get d ''pickup_address'')
              \<and> doc_get d' ''expiry_time''
                  = (case expiry_time_opt req of Some t \<Rightarrow> VDatetime t
                     | None \<Rightarrow> doc_get d ''expiry_time'')
              \<and> doc_get d' ''updated_at'' = VDatetime now
              \<and> (\<forall>k. k \<notin> {''food_item'', ''quantity'', ''pickup_address'', ''expiry_time'',
                           ''updated_at''} \<longrightarrow> doc_get d' k = doc_get d k)"
    apply (rule exI[of _ pre], rule exI[of _ post], rule exI[of _ ?d])
    apply (intro conjI)
           apply (rule c)
          apply (rule r)
         apply (rule set_fields_request(1))
        apply (rule set_fields_request(2))
       apply (rule set_fields_request(3))
      apply (rule set_fields_request(4))
     apply (rule set_fields_request(5))
    apply (rule o)
    done
qed

theorem update_applies_supplied_fields_witness:
  "update_donation sample_lib db_claimed 7 d_one pasta
     = Inr (db_pasta, serialize_doc sample_lib (Some (hd (donation db_pasta))))
   \<and> doc_get (hd (donation db_pasta)) ''food_item'' = VStr ''Pasta''
   \<and> doc_get (hd (donation db_pasta)) ''quantity'' = VStr ''10kg''
   \<and> doc_get (hd (donation db_pasta)) ''updated_at'' = VDatetime 7
   \<and> update_donation sample_lib db1 5 d_one no_fields
     = Inr (db1, serialize_doc sample_lib (Some (hd (donation db1))))"
proof -
  have i: "ObjectId sample_lib d_one = Some (Oid d_one)" by code_simp
  have f: "find_one sample_lib (donation db1) (by_id (Oid d_one)) = Some (hd (donation db1))"
    by code_simp
  have n: "no_field_supplied no_fields" by code_simp
  from update_applies_supplied_fields[OF i f, of no_fields 5] n
  have 1: "update_donation sample_lib db1 5 d_one no_fields
     = Inr (db1, serialize_doc sample_lib (Some (hd (donation db1))))" by simp
  have 2: "update_donation sample_lib db_claimed 7 d_one pasta
     = Inr (db_pasta, serialize_doc sample_lib (Some (hd (donation db_pasta))))"
    "doc_get (hd (donation db_pasta)) ''food_item'' = VStr ''Pasta''"
    "doc_get (hd (donation db_pasta)) ''quantity'' = VStr ''10kg''"
    "doc_get (hd (donation db_pasta)) ''updated_at'' = VDatetime 7"
    by code_simp+
  from 1 2 show ?thesis by simp
qed

text \<open>
  C3, as stated, fails where no field is supplied: the update at time 5 succeeds and the
  donation keeps the \<^verbatim>\<open>updated_at\<close> of its creation, time 1.
\<close>

theorem update_without_fields_keeps_updated_at:
  "update_donation sample_lib db1 5 d_one no_fields
     = Inr (db1, serialize_doc sample_lib (Some (hd (donation db1))))
   \<and> doc_get (hd (donation db1)) ''updated_at'' = VDatetime 1
   \<and> doc_get (hd (donation db1)) ''updated_at'' \<noteq> VDatetime 5"
  by code_simp

text \<open>
  C4. An update that supplies no field, for an identifier that resolves to no donation,
  does not fail: the handler answers with an empty body. With a field supplied the same
  identifier gives \<open>NotFound\<close>.
\<close>

theorem update_missing_without_fields:
  "find_one sample_lib (donation db1) (by_id (Oid d_two)) = None
   \<and> update_donation sample_lib db1 5 d_two no_fields = Inr (db1, None)
   \<and> update_donation sample_lib db1 5 d_two pasta = Inl NotFound"
  by code_simp

text \<open>
  C10. The check and the write of a claim are two rounds with the store, and the write
  does not test the status. Two claims of the same available donation that both check
  before either writes both succeed; the second overwrites the first.
\<close>

theorem both_claims_succeed:
  "claim_check sample_lib db1 d_one helpers = Inr (Oid d_one)
   \<and> claim_check sample_lib db1 d_one green = Inr (Oid d_one)
   \<and> doc_get (the (snd (claim_write sample_lib db1 5 (Oid d_one) helpers))) ''claimed_by''
       = VStr ''Ngo: Helpers Inc''
   \<and> doc_get (the (snd (claim_write sample_lib
          (fst (claim_write sample_lib db1 5 (Oid d_one) helpers)) 6 (Oid d_one) green)))
        ''claimed_by''
       = VStr ''Society: Green Block''"
  by code_simp

end
